theory Spec2Isabelle
  imports Complex_Main "HOL-Library.AList"
begin

section \<open>JavaScript values\<close>

text \<open>
  The orchestrator \<^verbatim>\<open>run\<close> of \<^verbatim>\<open>src/index.js\<close> handles values whose shape
  is decided at run time: the content of the completion and the result of
  \<^verbatim>\<open>JSON.parse\<close>. They are modelled by the values JSON data can take. A number is a
  rational (the two zeros of a double are one value here; NaN and the infinities, which
  JSON text cannot denote exactly, are left out). An object is its list of properties in
  insertion order, read with \<open>map_of\<close>.
\<close>

datatype jsval =
    JUndefined
  | JNull
  | JBool bool
  | JNum rat
  | JStr string
  | JArr "jsval list"
  | JObj "(string \<times> jsval) list"

text \<open>Truthiness, as \<^verbatim>\<open>if (v)\<close>, \<^verbatim>\<open>a && b\<close> and \<^verbatim>\<open>a || b\<close> read it.\<close>

fun js_truthy :: "jsval \<Rightarrow> bool" where
  "js_truthy JUndefined = False"
| "js_truthy JNull = False"
| "js_truthy (JBool b) = b"
| "js_truthy (JNum r) = (r \<noteq> 0)"
| "js_truthy (JStr s) = (s \<noteq> [])"
| "js_truthy (JArr vs) = True"
| "js_truthy (JObj kvs) = True"

text \<open>\<^verbatim>\<open>a || b\<close>: the left operand when it is truthy, the right one otherwise.\<close>

definition js_or :: "jsval \<Rightarrow> jsval \<Rightarrow> jsval" where
  "js_or a b = (if js_truthy a then a else b)"

text \<open>
  Reading a property \<^verbatim>\<open>v.k\<close> of a value that is neither \<^verbatim>\<open>null\<close> nor
  \<^verbatim>\<open>undefined\<close>. The program reads only \<^verbatim>\<open>is_ok\<close>, \<^verbatim>\<open>body\<close>, \<^verbatim>\<open>path\<close>,
  \<^verbatim>\<open>line\<close>, \<^verbatim>\<open>commit_id\<close>, \<^verbatim>\<open>side\<close>, \<^verbatim>\<open>start_line\<close> and \<^verbatim>\<open>start_side\<close>; none
  of them is a built-in property of a string, number, boolean or array, so on those the
  read gives \<^verbatim>\<open>undefined\<close>.
\<close>

fun js_prop :: "jsval \<Rightarrow> string \<Rightarrow> jsval" where
  "js_prop (JObj kvs) k = (case map_of kvs k of None \<Rightarrow> JUndefined | Some v \<Rightarrow> v)"
| "js_prop v k = JUndefined"

text \<open>
  \<^verbatim>\<open>v.k\<close> in general: on \<^verbatim>\<open>null\<close> and \<^verbatim>\<open>undefined\<close> the read throws a TypeError
  (\<open>Inl\<close> carries the error's message, in V8's wording).
\<close>

fun js_get :: "jsval \<Rightarrow> string \<Rightarrow> string + jsval" where
  "js_get JUndefined k = Inl (''Cannot read properties of undefined (reading '' @ [CHR 0x27] @ k @ [CHR 0x27] @ '')'')"
| "js_get JNull k = Inl (''Cannot read properties of null (reading '' @ [CHR 0x27] @ k @ [CHR 0x27] @ '')'')"
| "js_get v k = Inr (js_prop v k)"

text \<open>
  \<^verbatim>\<open>v.k = x\<close>. The program assigns only after the required fields of \<^verbatim>\<open>v\<close> were
  read truthy, that is, only to objects; the second equation is never reached.
\<close>

fun js_set :: "jsval \<Rightarrow> string \<Rightarrow> jsval \<Rightarrow> jsval" where
  "js_set (JObj kvs) k x = JObj (AList.update k x kvs)"
| "js_set v k x = v"

text \<open>
  String conversion, as a template literal \<^verbatim>\<open>`${v}`\<close> performs it. Formatting a number
  is the runtime's (the parameter \<open>fmt\<close>). An array is the join of its elements with
  commas, \<^verbatim>\<open>null\<close> and \<^verbatim>\<open>undefined\<close> elements giving the empty string. A plain
  object is \<^verbatim>\<open>[object Object]\<close>, unless it has an own property \<^verbatim>\<open>toString\<close>: in
  JSON data that property is never callable, the inherited \<^verbatim>\<open>valueOf\<close> returns the
  object itself, and the conversion throws a TypeError.
\<close>

fun js_to_string :: "(rat \<Rightarrow> string) \<Rightarrow> jsval \<Rightarrow> string + string"
  and js_join :: "(rat \<Rightarrow> string) \<Rightarrow> jsval list \<Rightarrow> string + string" where
  "js_to_string fmt JUndefined = Inr ''undefined''"
| "js_to_string fmt JNull = Inr ''null''"
| "js_to_string fmt (JBool b) = Inr (if b then ''true'' else ''false'')"
| "js_to_string fmt (JNum r) = Inr (fmt r)"
| "js_to_string fmt (JStr s) = Inr s"
| "js_to_string fmt (JArr vs) = js_join fmt vs"
| "js_to_string fmt (JObj kvs) =
     (if ''toString'' \<in> fst ` set kvs then Inl ''Cannot convert object to primitive value''
      else Inr ''[object Object]'')"
| "js_join fmt [] = Inr []"
| "js_join fmt (v # vs) =
     (case (if v = JUndefined \<or> v = JNull then Inr [] else js_to_string fmt v) of
        Inl e \<Rightarrow> Inl e
      | Inr s \<Rightarrow>
          if vs = [] then Inr s
          else (case js_join fmt vs of Inl e \<Rightarrow> Inl e | Inr r \<Rightarrow> Inr (s @ '','' @ r)))"

text \<open>
  \<^verbatim>\<open>feedback.match(/\{[\s\S]*?\}/g)\<close>: all matches, left to right, of an opening brace
  followed by the shortest run of arbitrary characters that ends in a closing brace. At
  a position holding \<^verbatim>\<open>{\<close> with a \<^verbatim>\<open>}\<close> somewhere after it, the match runs to the
  first such \<^verbatim>\<open>}\<close> and the search resumes behind it; at any other position the search
  moves one character on. JavaScript returns \<^verbatim>\<open>null\<close> when nothing matches; the empty
  list stands for it (the program tests \<^verbatim>\<open>jsonMatches && jsonMatches.length > 0\<close>).
\<close>

function js_match :: "string \<Rightarrow> string list" where
  "js_match [] = []"
| "js_match (c # cs) =
     (if c = CHR ''{'' \<and> CHR ''}'' \<in> set cs
      then (c # takeWhile (\<lambda>d. d \<noteq> CHR ''}'') cs @ ''}'')
             # js_match (tl (dropWhile (\<lambda>d. d \<noteq> CHR ''}'') cs))
      else js_match cs)"
  by pat_completeness auto
termination
proof (relation "measure length")
  fix c :: char and cs :: string
  have "length (dropWhile (\<lambda>d. d \<noteq> CHR ''}'') cs) \<le> length cs"
    by (rule length_dropWhile_le)
  then show "(tl (dropWhile (\<lambda>d. d \<noteq> CHR ''}'') cs), c # cs) \<in> measure length"
    by simp
qed auto

text \<open>\<^verbatim>\<open>names.join(", ")\<close> on an array of strings.\<close>

fun join_with :: "string \<Rightarrow> string list \<Rightarrow> string" where
  "join_with sep [] = []"
| "join_with sep [x] = x"
| "join_with sep (x # y # ys) = x @ sep @ join_with sep (y # ys)"

section \<open>The collaborators\<close>

text \<open>What the source-control client returns for the pull request and its context.\<close>

record pull =
  pr_head_sha :: string
  pr_base_sha :: string
  pr_title :: string
  pr_body :: "string option"

record changed_file =
  f_filename :: string
  f_status :: string
  f_additions :: nat
  f_deletions :: nat
  f_changes :: nat
  f_patch :: "string option"

record prior_comment =
  c_body :: string
  c_path :: "string option"
  c_line :: "nat option"
  c_created_at :: string

text \<open>
  The values interpolated into the prompt. The template around them is a fixed text and
  is not reproduced: the completion client is a function of these values.
\<close>

record prompt =
  p_pr_number :: string
  p_owner :: string
  p_repo :: string
  p_head_sha :: string
  p_base_sha :: string
  p_title :: string
  p_description :: string
  p_file_changes :: "changed_file list"
  p_comments :: "prior_comment list"

text \<open>The arguments of \<^verbatim>\<open>issues.createComment\<close> and \<^verbatim>\<open>pulls.createReviewComment\<close>.\<close>

record issue_comment =
  ic_owner :: string
  ic_repo :: string
  ic_issue_number :: string
  ic_body :: jsval

record review_comment =
  rc_owner :: string
  rc_repo :: string
  rc_pull_number :: string
  rc_body :: jsval
  rc_commit_id :: jsval
  rc_path :: jsval
  rc_line :: jsval
  rc_side :: jsval
  rc_start_line :: jsval
  rc_start_side :: jsval

text \<open>A request to create a comment is accepted, or it throws an error with a message.\<close>

datatype outcome = Accepted | Rejected string

text \<open>
  The observable effects of one invocation, in the order they happen: log lines, the call
  of the completion model, the two kinds of comment requests with their outcomes, and the
  status reported by \<^verbatim>\<open>core.setOutput\<close> and \<^verbatim>\<open>core.setFailed\<close>.
\<close>

datatype event =
    Info string
  | Warning string
  | Completion prompt
  | CreateComment issue_comment outcome
  | CreateReviewComment review_comment outcome
  | SetOutput string string
  | SetFailed string

text \<open>
  The environment of an invocation: the inputs, what each external call returns (\<open>Inl\<close>
  or \<open>Some\<close>: the message of the error it throws) and the two built-ins of the runtime
  the program relies on, \<^verbatim>\<open>JSON.parse\<close> and the formatting of numbers. Whether a
  comment request is accepted may depend on everything that happened before it.
\<close>

record env =
  github_pr_id :: string
  repo_owner :: string
  repo_name :: string
  get_octokit :: "string option"
  pulls_get :: "string + pull"
  pulls_listFiles :: "string + changed_file list"
  pulls_listReviewComments :: "string + prior_comment list"
  issues_listComments :: "string + prior_comment list"
  new_openai :: "string option"
  chat_completion :: "prompt \<Rightarrow> string + jsval"
  json_parse :: "string \<Rightarrow> string + jsval"
  number_to_string :: "rat \<Rightarrow> string"
  issues_createComment :: "event list \<Rightarrow> issue_comment \<Rightarrow> outcome"
  pulls_createReviewComment :: "event list \<Rightarrow> review_comment \<Rightarrow> outcome"

section \<open>The orchestrator\<close>

text \<open>The outer \<^verbatim>\<open>catch\<close> (line 267) and the last two statements of the \<^verbatim>\<open>try\<close> (264-265).\<close>

definition set_failed :: "event list \<Rightarrow> string \<Rightarrow> event list" where
  "set_failed t msg = t @ [SetFailed (''Action failed with error: '' @ msg)]"

definition completed :: "event list \<Rightarrow> event list" where
  "completed t =
     t @ [Info ''PR review completed and feedback posted successfully!'',
          SetOutput ''success'' ''true'']"

text \<open>\<^verbatim>\<open>core.warning\<close> of the \<^verbatim>\<open>catch (parseError)\<close> inside the loop (line 239).\<close>

definition parse_warning :: "event list \<Rightarrow> string \<Rightarrow> event list" where
  "parse_warning t msg = t @ [Warning (''Failed to parse JSON comment: '' @ msg)]"

text \<open>\<^verbatim>\<open>octokit.rest.issues.createComment\<close> with the given body: the request is logged
  with its outcome.\<close>

definition create_comment :: "env \<Rightarrow> event list \<Rightarrow> jsval \<Rightarrow> event list \<times> outcome" where
  "create_comment E t b =
     (let c = \<lparr>ic_owner = repo_owner E, ic_repo = repo_name E,
                ic_issue_number = github_pr_id E, ic_body = b\<rparr>;
          res = issues_createComment E t c
      in (t @ [CreateComment c res], res))"

text \<open>Lines 16-44: the client and the four reads; the first error ends the stage.\<close>

definition fetch_context ::
  "env \<Rightarrow> string + (pull \<times> changed_file list \<times> prior_comment list \<times> prior_comment list)" where
  "fetch_context E =
     (case get_octokit E of
        Some msg \<Rightarrow> Inl msg
      | None \<Rightarrow>
     (case pulls_get E of
        Inl msg \<Rightarrow> Inl msg
      | Inr pr \<Rightarrow>
     (case pulls_listFiles E of
        Inl msg \<Rightarrow> Inl msg
      | Inr files \<Rightarrow>
     (case pulls_listReviewComments E of
        Inl msg \<Rightarrow> Inl msg
      | Inr existingComments \<Rightarrow>
     (case issues_listComments E of
        Inl msg \<Rightarrow> Inl msg
      | Inr discussionComments \<Rightarrow> Inr (pr, files, existingComments, discussionComments))))))"

text \<open>The values the prompt of lines 62-141 is built from.\<close>

definition build_prompt ::
  "env \<Rightarrow> pull \<Rightarrow> changed_file list \<Rightarrow> prior_comment list \<Rightarrow> prior_comment list \<Rightarrow> prompt" where
  "build_prompt E pr files existingComments discussionComments =
     \<lparr>p_pr_number = github_pr_id E, p_owner = repo_owner E, p_repo = repo_name E,
      p_head_sha = pr_head_sha pr, p_base_sha = pr_base_sha pr, p_title = pr_title pr,
      p_description =
        (case pr_body pr of
           None \<Rightarrow> ''No description provided''
         | Some d \<Rightarrow> if d = [] then ''No description provided'' else d),
      p_file_changes = files,
      p_comments = existingComments @ discussionComments\<rparr>"

text \<open>
  Lines 10-192: everything up to the content of the completion. The result is the log so
  far together with either the message of the error thrown, or the pull request and the
  feedback.
\<close>

definition ask_model :: "env \<Rightarrow> event list \<times> (string + (pull \<times> jsval))" where
  "ask_model E =
     (let t0 = [Info (''Starting PR review for PR #'' @ github_pr_id E)] in
      case fetch_context E of
        Inl msg \<Rightarrow> (t0, Inl msg)
      | Inr (pr, files, existingComments, discussionComments) \<Rightarrow>
          (let t1 = t0 @ [Info (''Changed files: '' @ join_with '', '' (map f_filename files))] in
           case new_openai E of
             Some msg \<Rightarrow> (t1, Inl msg)
           | None \<Rightarrow>
               (let p = build_prompt E pr files existingComments discussionComments;
                    t2 = t1 @ [Completion p]
                in case chat_completion E p of
                     Inl msg \<Rightarrow> (t2, Inl msg)
                   | Inr feedback \<Rightarrow> (t2, Inr (pr, feedback)))))"

text \<open>
  Line 217, \<^verbatim>\<open>commentData.body && commentData.path && commentData.line\<close>, read left to
  right with short-circuit.
\<close>

definition required_fields :: "jsval \<Rightarrow> string + bool" where
  "required_fields commentData =
     (case js_get commentData ''body'' of
        Inl msg \<Rightarrow> Inl msg
      | Inr b \<Rightarrow>
          if \<not> js_truthy b then Inr False
          else (case js_get commentData ''path'' of
                  Inl msg \<Rightarrow> Inl msg
                | Inr p \<Rightarrow>
                    if \<not> js_truthy p then Inr False
                    else (case js_get commentData ''line'' of
                            Inl msg \<Rightarrow> Inl msg
                          | Inr l \<Rightarrow> Inr (js_truthy l))))"

text \<open>Lines 219-220: the two defaults, assigned to the parsed object.\<close>

definition set_defaults :: "pull \<Rightarrow> jsval \<Rightarrow> jsval" where
  "set_defaults pr commentData =
     (let cd1 = js_set commentData ''commit_id''
                  (js_or (js_prop commentData ''commit_id'') (JStr (pr_head_sha pr)))
      in js_set cd1 ''side'' (js_or (js_prop cd1 ''side'') (JStr ''RIGHT'')))"

text \<open>Lines 223-234: the arguments of the inline comment, read from the object.\<close>

definition review_request :: "env \<Rightarrow> jsval \<Rightarrow> review_comment" where
  "review_request E commentData =
     \<lparr>rc_owner = repo_owner E, rc_repo = repo_name E, rc_pull_number = github_pr_id E,
      rc_body = js_prop commentData ''body'',
      rc_commit_id = js_prop commentData ''commit_id'',
      rc_path = js_prop commentData ''path'',
      rc_line = js_prop commentData ''line'',
      rc_side = js_prop commentData ''side'',
      rc_start_line = js_prop commentData ''start_line'',
      rc_start_side = js_prop commentData ''start_side''\<rparr>"

text \<open>
  Lines 213-240, the body of the loop for one match. Whatever is thrown inside it (by
  \<^verbatim>\<open>JSON.parse\<close>, by reading a field, by the request, by building the log line) is
  caught at line 238 and becomes a warning; the loop goes on.
\<close>

definition post_segment :: "env \<Rightarrow> pull \<Rightarrow> event list \<Rightarrow> string \<Rightarrow> event list" where
  "post_segment E pr t jsonStr =
     (case json_parse E jsonStr of
        Inl msg \<Rightarrow> parse_warning t msg
      | Inr commentData \<Rightarrow>
          (case required_fields commentData of
             Inl msg \<Rightarrow> parse_warning t msg
           | Inr ok \<Rightarrow>
               if \<not> ok then t
               else
                 (let cd = set_defaults pr commentData;
                      req = review_request E cd;
                      res = pulls_createReviewComment E t req;
                      t1 = t @ [CreateReviewComment req res]
                  in case res of
                       Rejected msg \<Rightarrow> parse_warning t1 msg
                     | Accepted \<Rightarrow>
                         (case js_to_string (number_to_string E) (js_prop cd ''path'') of
                            Inl msg \<Rightarrow> parse_warning t1 msg
                          | Inr p \<Rightarrow>
                              (case js_to_string (number_to_string E) (js_prop cd ''line'') of
                                 Inl msg \<Rightarrow> parse_warning t1 msg
                               | Inr l \<Rightarrow>
                                   t1 @ [Info (''Posted inline comment on '' @ p @ '':'' @ l)])))))"

text \<open>
  Lines 208-251, the body of the inner \<^verbatim>\<open>try\<close>: the log after it, and the message of
  the error that escapes it, if any. Only a string has a \<^verbatim>\<open>match\<close> method; on any
  other feedback the call throws a TypeError.
\<close>

definition try_inline :: "env \<Rightarrow> pull \<Rightarrow> event list \<Rightarrow> jsval \<Rightarrow> event list \<times> string option" where
  "try_inline E pr t feedback =
     (case feedback of
        JStr text \<Rightarrow>
          (let jsonMatches = js_match text in
           if jsonMatches \<noteq> [] then (foldl (post_segment E pr) t jsonMatches, None)
           else
             (case create_comment E t feedback of
                (t1, Rejected msg) \<Rightarrow> (t1, Some msg)
              | (t1, Accepted) \<Rightarrow>
                  (t1 @ [Info ''Posted regular comment (no valid JSON found)''], None)))
      | _ \<Rightarrow> (t, Some ''feedback.match is not a function''))"

text \<open>Lines 194-265: the interpretation of the feedback.\<close>

definition review_feedback :: "env \<Rightarrow> pull \<Rightarrow> event list \<Rightarrow> jsval \<Rightarrow> event list" where
  "review_feedback E pr t feedback =
     (case js_to_string (number_to_string E) feedback of
        Inl msg \<Rightarrow> set_failed t msg
      | Inr s \<Rightarrow>
          (let t1 = t @ [Info (''AI Review Response: '' @ s)] in
           case js_get feedback ''is_ok'' of
             Inl msg \<Rightarrow> set_failed t1 msg
           | Inr is_ok \<Rightarrow>
               if js_truthy is_ok then
                 (case create_comment E t1 (js_prop feedback ''body'') of
                    (t2, Rejected msg) \<Rightarrow> set_failed t2 msg
                  | (t2, Accepted) \<Rightarrow>
                      completed (t2 @ [Info ''No issues found - posted positive feedback'']))
               else
                 (case try_inline E pr t1 feedback of
                    (t2, None) \<Rightarrow> completed t2
                  | (t2, Some err) \<Rightarrow>
                      (case create_comment E t2 feedback of
                         (t3, Rejected msg) \<Rightarrow> set_failed t3 msg
                       | (t3, Accepted) \<Rightarrow>
                           completed (t3 @ [Info ''Posted regular comment (fallback)''])))))"

text \<open>The whole of \<^verbatim>\<open>run\<close>: the log of one invocation.\<close>

definition run :: "env \<Rightarrow> event list" where
  "run E =
     (case ask_model E of
        (t, Inl msg) \<Rightarrow> set_failed t msg
      | (t, Inr (pr, feedback)) \<Rightarrow> review_feedback E pr t feedback)"

section \<open>Reading the log\<close>

text \<open>
  The comment requests of a log with their outcomes, its warnings, the calls of the
  completion model, and the failure messages, each in the order of the log.
\<close>

fun discussion_requests :: "event list \<Rightarrow> (jsval \<times> outcome) list" where
  "discussion_requests [] = []"
| "discussion_requests (CreateComment c res # t) = (ic_body c, res) # discussion_requests t"
| "discussion_requests (e # t) = discussion_requests t"

fun inline_requests :: "event list \<Rightarrow> (review_comment \<times> outcome) list" where
  "inline_requests [] = []"
| "inline_requests (CreateReviewComment r res # t) = (r, res) # inline_requests t"
| "inline_requests (e # t) = inline_requests t"

fun warnings :: "event list \<Rightarrow> string list" where
  "warnings [] = []"
| "warnings (Warning w # t) = w # warnings t"
| "warnings (e # t) = warnings t"

fun model_calls :: "event list \<Rightarrow> prompt list" where
  "model_calls [] = []"
| "model_calls (Completion p # t) = p # model_calls t"
| "model_calls (e # t) = model_calls t"

fun failures :: "event list \<Rightarrow> string list" where
  "failures [] = []"
| "failures (SetFailed m # t) = m # failures t"
| "failures (e # t) = failures t"

definition succeeded :: "event list \<Rightarrow> bool" where
  "succeeded t = (SetOutput ''success'' ''true'' \<in> set t)"

text \<open>
  The inline comment a match leads to, if any: the match parses, the required fields of
  the result are truthy, and the request is read from the object after the defaults. No
  outcome of any request enters here.
\<close>

definition draft :: "env \<Rightarrow> pull \<Rightarrow> string \<Rightarrow> review_comment option" where
  "draft E pr jsonStr =
     (case json_parse E jsonStr of
        Inl msg \<Rightarrow> None
      | Inr commentData \<Rightarrow>
          (case required_fields commentData of
             Inl msg \<Rightarrow> None
           | Inr ok \<Rightarrow>
               if ok then Some (review_request E (set_defaults pr commentData)) else None))"

section \<open>Sample invocations\<close>

text \<open>
  A concrete environment for the examples: pull request 7 of \<^verbatim>\<open>acme/widgets\<close> with
  head commit \<^verbatim>\<open>abc123\<close>, no changed files and no earlier comments. Every discussion
  comment is accepted; an inline comment is rejected when its line is 999 (a line that
  is not part of the diff) and accepted otherwise. The environment is a function of the
  content the completion model returns.
\<close>

definition sample_pull :: pull where
  "sample_pull =
     \<lparr>pr_head_sha = ''abc123'', pr_base_sha = ''000aaa'', pr_title = ''Add parser'',
      pr_body = None\<rparr>"

definition seg_min :: string where
  \<open>seg_min = ''{"body":"Rename it","path":"code.py","line":25}''\<close>

definition seg_full :: string where
  \<open>seg_full = ''{"body":"Use env vars","commit_id":"c0ffee","path":"file.py","start_line":9,"line":11,"side":"LEFT"}''\<close>

definition seg_nopath :: string where
  \<open>seg_nopath = ''{"body":"Looks odd"}''\<close>

definition seg_empty_body :: string where
  \<open>seg_empty_body = ''{"body":"","path":"a.py","line":3}''\<close>

definition seg_stale :: string where
  \<open>seg_stale = ''{"body":"Old","path":"gone.py","line":999}''\<close>

text \<open>
  \<open>sample_parse\<close> agrees with \<^verbatim>\<open>JSON.parse\<close> on the segments above and on
  \<^verbatim>\<open>{this}\<close>, which is not JSON; \<open>sample_format\<close> prints the numbers that occur in
  them.
\<close>

definition obj_min :: jsval where
  "obj_min = JObj [(''body'', JStr ''Rename it''), (''path'', JStr ''code.py''), (''line'', JNum 25)]"

definition obj_full :: jsval where
  "obj_full =
     JObj [(''body'', JStr ''Use env vars''), (''commit_id'', JStr ''c0ffee''),
           (''path'', JStr ''file.py''), (''start_line'', JNum 9), (''line'', JNum 11),
           (''side'', JStr ''LEFT'')]"

definition sample_parse :: "string \<Rightarrow> string + jsval" where
  "sample_parse s =
     (if s = seg_min then Inr obj_min
      else if s = seg_full then Inr obj_full
      else if s = seg_nopath then Inr (JObj [(''body'', JStr ''Looks odd'')])
      else if s = seg_empty_body then
        Inr (JObj [(''body'', JStr []), (''path'', JStr ''a.py''), (''line'', JNum 3)])
      else if s = seg_stale then
        Inr (JObj [(''body'', JStr ''Old''), (''path'', JStr ''gone.py''), (''line'', JNum 999)])
      else Inl ''Unexpected token'')"

definition sample_format :: "rat \<Rightarrow> string" where
  "sample_format r =
     (if r = 25 then ''25'' else if r = 11 then ''11'' else if r = 999 then ''999'' else ''3'')"

definition sample_env :: "jsval \<Rightarrow> env" where
  "sample_env feedback =
     \<lparr>github_pr_id = ''7'', repo_owner = ''acme'', repo_name = ''widgets'',
      get_octokit = None, pulls_get = Inr sample_pull, pulls_listFiles = Inr [],
      pulls_listReviewComments = Inr [], issues_listComments = Inr [],
      new_openai = None, chat_completion = (\<lambda>p. Inr feedback),
      json_parse = sample_parse, number_to_string = sample_format,
      issues_createComment = (\<lambda>t c. Accepted),
      pulls_createReviewComment =
        (\<lambda>t r. if rc_line r = JNum 999 then Rejected ''Validation Failed'' else Accepted)\<rparr>"

definition sample_log :: "event list" where
  "sample_log =
     [Info ''Starting PR review for PR #7'', Info ''Changed files: '',
      Completion
        \<lparr>p_pr_number = ''7'', p_owner = ''acme'', p_repo = ''widgets'',
         p_head_sha = ''abc123'', p_base_sha = ''000aaa'', p_title = ''Add parser'',
         p_description = ''No description provided'', p_file_changes = [],
         p_comments = []\<rparr>]"

text \<open>
  The responses of the examples: free text around the segments, and a structured verdict.
\<close>

definition resp_mixed :: string where
  "resp_mixed = seg_min @ '' '' @ seg_nopath"

definition resp_garbled :: string where
  "resp_garbled = ''{this} '' @ seg_min"

definition resp_unparsable :: string where
  "resp_unparsable = ''Please fix {this}''"

definition resp_rejected :: string where
  "resp_rejected = ''{this} and '' @ seg_nopath"

definition resp_two :: string where
  "resp_two = ''First '' @ seg_min @ '' then '' @ seg_full"

definition resp_many :: "nat \<Rightarrow> string" where
  "resp_many n = concat (replicate n seg_min)"

definition resp_stale :: string where
  "resp_stale = seg_stale @ '' '' @ seg_min"

definition verdict_ok :: jsval where
  "verdict_ok = JObj [(''is_ok'', JBool True), (''body'', JStr ''Everything looks good!'')]"

text \<open>
  The same verdict as the completion client delivers it: \<^verbatim>\<open>message.content\<close> is a
  string, the JSON text of the verdict. In \<open>verdict_env\<close> the content is that text and
  \<^verbatim>\<open>JSON.parse\<close> reads it as \<open>verdict_ok\<close>.
\<close>

definition verdict_text :: string where
  \<open>verdict_text = ''{"is_ok":true,"body":"Everything looks good!"}''\<close>

definition verdict_env :: env where
  "verdict_env =
     (sample_env (JStr verdict_text))
       \<lparr>json_parse := (\<lambda>s. if s = verdict_text then Inr verdict_ok else sample_parse s)\<rparr>"

text \<open>
  A well-formed comment whose body quotes code with braces, the object \<^verbatim>\<open>JSON.parse\<close>
  reads from it, and the part of it up to its first closing brace, which is not JSON. In
  \<open>braces_env\<close> the content of the completion is that one comment.
\<close>

definition seg_braces :: string where
  \<open>seg_braces = ''{"body":"use {x} here","path":"p.js","line":4}''\<close>

definition seg_braces_cut :: string where
  \<open>seg_braces_cut = ''{"body":"use {x}''\<close>

definition obj_braces :: jsval where
  "obj_braces =
     JObj [(''body'', JStr ''use {x} here''), (''path'', JStr ''p.js''), (''line'', JNum 4)]"

definition braces_env :: env where
  "braces_env =
     (sample_env (JStr seg_braces))
       \<lparr>json_parse := (\<lambda>s. if s = seg_braces then Inr obj_braces else sample_parse s)\<rparr>"

section \<open>Facts about the log\<close>

lemma discussion_requests_append [simp]:
  "discussion_requests (a @ b) = discussion_requests a @ discussion_requests b"
  by (induction a rule: discussion_requests.induct) simp_all

lemma inline_requests_append [simp]:
  "inline_requests (a @ b) = inline_requests a @ inline_requests b"
  by (induction a rule: inline_requests.induct) simp_all

lemma warnings_append [simp]: "warnings (a @ b) = warnings a @ warnings b"
  by (induction a rule: warnings.induct) simp_all

lemma model_calls_append [simp]: "model_calls (a @ b) = model_calls a @ model_calls b"
  by (induction a rule: model_calls.induct) simp_all

lemma failures_append [simp]: "failures (a @ b) = failures a @ failures b"
  by (induction a rule: failures.induct) simp_all

lemma succeeded_completed [simp]: "succeeded (completed t)"
  by (simp add: succeeded_def completed_def)

lemma completed_reads [simp]:
  "discussion_requests (completed t) = discussion_requests t"
  "inline_requests (completed t) = inline_requests t"
  "warnings (completed t) = warnings t"
  "model_calls (completed t) = model_calls t"
  "failures (completed t) = failures t"
  by (simp_all add: completed_def)

lemma set_failed_reads [simp]:
  "discussion_requests (set_failed t m) = discussion_requests t"
  "inline_requests (set_failed t m) = inline_requests t"
  "warnings (set_failed t m) = warnings t"
  "model_calls (set_failed t m) = model_calls t"
  "failures (set_failed t m) = failures t @ [''Action failed with error: '' @ m]"
  by (simp_all add: set_failed_def)

lemma parse_warning_reads [simp]:
  "discussion_requests (parse_warning t m) = discussion_requests t"
  "inline_requests (parse_warning t m) = inline_requests t"
  "warnings (parse_warning t m) = warnings t @ [''Failed to parse JSON comment: '' @ m]"
  "model_calls (parse_warning t m) = model_calls t"
  "failures (parse_warning t m) = failures t"
  by (simp_all add: parse_warning_def)

text \<open>Up to the answer of the model nothing is posted, warned about or reported.\<close>

lemma ask_model_reads:
  assumes "ask_model E = (t, r)"
  shows "discussion_requests t = [] \<and> inline_requests t = [] \<and> warnings t = []
         \<and> failures t = [] \<and> \<not> succeeded t"
  using assms
  by (auto simp: ask_model_def succeeded_def Let_def split: sum.splits option.splits prod.splits)

text \<open>One round of the loop: what it adds to each reading of the log.\<close>

lemma post_segment_inline:
  "inline_requests (post_segment E pr t s) =
     inline_requests t @
       (case draft E pr s of None \<Rightarrow> [] | Some r \<Rightarrow> [(r, pulls_createReviewComment E t r)])"
  by (simp add: post_segment_def draft_def Let_def split: sum.splits outcome.splits)

lemma post_segment_discussion [simp]:
  "discussion_requests (post_segment E pr t s) = discussion_requests t"
  by (simp add: post_segment_def Let_def split: sum.splits outcome.splits)

lemma post_segment_failures [simp]: "failures (post_segment E pr t s) = failures t"
  by (simp add: post_segment_def Let_def split: sum.splits outcome.splits)

lemma post_segment_model_calls [simp]: "model_calls (post_segment E pr t s) = model_calls t"
  by (simp add: post_segment_def Let_def split: sum.splits outcome.splits)

lemma post_segment_extends: "\<exists>u. post_segment E pr t s = t @ u"
  by (simp add: post_segment_def parse_warning_def Let_def split: sum.splits outcome.splits)

text \<open>The loop as a whole.\<close>

lemma loop_discussion [simp]:
  "discussion_requests (foldl (post_segment E pr) t ms) = discussion_requests t"
  by (induction ms arbitrary: t) simp_all

lemma loop_failures [simp]: "failures (foldl (post_segment E pr) t ms) = failures t"
  by (induction ms arbitrary: t) simp_all

lemma loop_model_calls [simp]: "model_calls (foldl (post_segment E pr) t ms) = model_calls t"
  by (induction ms arbitrary: t) simp_all

lemma loop_extends: "\<exists>u. foldl (post_segment E pr) t ms = t @ u"
proof (induction ms arbitrary: t)
  case Nil
  show ?case by simp
next
  case (Cons s ms)
  obtain u where u: "post_segment E pr t s = t @ u"
    using post_segment_extends by blast
  obtain v where "foldl (post_segment E pr) (t @ u) ms = (t @ u) @ v"
    using Cons.IH by blast
  with u show ?case by simp
qed

lemma loop_inline:
  "map fst (inline_requests (foldl (post_segment E pr) t ms)) =
     map fst (inline_requests t) @ List.map_filter (draft E pr) ms"
proof (induction ms arbitrary: t)
  case Nil
  show ?case by simp
next
  case (Cons s ms)
  show ?case
    by (simp add: Cons.IH post_segment_inline split: option.splits)
qed

text \<open>A free-text answer: the log of lines 194-265.\<close>

lemma run_text:
  assumes "ask_model E = (t, Inr (pr, JStr text))"
  shows "run E =
     (let t1 = t @ [Info (''AI Review Response: '' @ text)] in
      if js_match text \<noteq> [] then completed (foldl (post_segment E pr) t1 (js_match text))
      else (case create_comment E t1 (JStr text) of
              (t2, Accepted) \<Rightarrow>
                completed (t2 @ [Info ''Posted regular comment (no valid JSON found)''])
            | (t2, Rejected e) \<Rightarrow>
                (case create_comment E t2 (JStr text) of
                   (t3, Rejected msg) \<Rightarrow> set_failed t3 msg
                 | (t3, Accepted) \<Rightarrow>
                     completed (t3 @ [Info ''Posted regular comment (fallback)'']))))"
  using assms
  by (simp add: run_def review_feedback_def try_inline_def Let_def create_comment_def
      split: outcome.splits)

section \<open>Facts about the scan and the context\<close>

text \<open>
  A match of the scan starts with an opening brace and ends at the first closing brace
  after it; it never holds a closing brace before its end.
\<close>

lemma js_match_shape:
  assumes "m \<in> set (js_match s)"
  shows "\<exists>inner. m = CHR ''{'' # inner @ ''}'' \<and> CHR ''}'' \<notin> set inner"
  using assms
proof (induction s rule: js_match.induct)
  case 1
  then show ?case by simp
next
  case (2 c cs)
  show ?case
  proof (cases "c = CHR ''{'' \<and> CHR ''}'' \<in> set cs")
    case True
    then have "m = c # takeWhile (\<lambda>d. d \<noteq> CHR ''}'') cs @ ''}''
               \<or> m \<in> set (js_match (tl (dropWhile (\<lambda>d. d \<noteq> CHR ''}'') cs)))"
      using "2.prems" by simp
    then show ?thesis
    proof
      assume "m = c # takeWhile (\<lambda>d. d \<noteq> CHR ''}'') cs @ ''}''"
      moreover have "CHR ''}'' \<notin> set (takeWhile (\<lambda>d. d \<noteq> CHR ''}'') cs)"
        using set_takeWhileD by fastforce
      ultimately show ?thesis using True by blast
    next
      assume "m \<in> set (js_match (tl (dropWhile (\<lambda>d. d \<noteq> CHR ''}'') cs)))"
      then show ?thesis using "2.IH"(1) True by blast
    qed
  next
    case False
    then have "m \<in> set (js_match cs)"
      using "2.prems" by auto
    then show ?thesis using "2.IH"(2) False by blast
  qed
qed

text \<open>The context-fetch stage fails exactly when the client or one of the reads does.\<close>

lemma fetch_context_fails:
  "fetch_context E = Inl msg \<longleftrightarrow>
     get_octokit E = Some msg
     \<or> get_octokit E = None \<and>
        (pulls_get E = Inl msg
         \<or> (\<exists>pr. pulls_get E = Inr pr) \<and>
            (pulls_listFiles E = Inl msg
             \<or> (\<exists>fs. pulls_listFiles E = Inr fs) \<and>
                (pulls_listReviewComments E = Inl msg
                 \<or> (\<exists>cs. pulls_listReviewComments E = Inr cs) \<and> issues_listComments E = Inl msg)))"
  by (auto simp: fetch_context_def split: option.splits sum.splits)

text \<open>Neither stage up to the answer, nor the drafts, look at the outcome of a request.\<close>

lemma ask_model_outcomes:
  "ask_model (E\<lparr>pulls_createReviewComment := f\<rparr>) = ask_model E"
  by (simp add: ask_model_def fetch_context_def build_prompt_def Let_def
      split: sum.splits option.splits prod.splits)

lemma draft_outcomes: "draft (E\<lparr>pulls_createReviewComment := f\<rparr>) pr = draft E pr"
  by (rule ext) (simp add: draft_def review_request_def split: sum.splits)

section \<open>Facts about the loop\<close>

text \<open>The request a postable object leads to, in terms of the object as parsed.\<close>

lemma draft_object:
  assumes "json_parse E s = Inr (JObj kvs)" and "required_fields (JObj kvs) = Inr True"
  shows "draft E pr s =
     Some \<lparr>rc_owner = repo_owner E, rc_repo = repo_name E, rc_pull_number = github_pr_id E,
           rc_body = js_prop (JObj kvs) ''body'',
           rc_commit_id = js_or (js_prop (JObj kvs) ''commit_id'') (JStr (pr_head_sha pr)),
           rc_path = js_prop (JObj kvs) ''path'',
           rc_line = js_prop (JObj kvs) ''line'',
           rc_side = js_or (js_prop (JObj kvs) ''side'') (JStr ''RIGHT''),
           rc_start_line = js_prop (JObj kvs) ''start_line'',
           rc_start_side = js_prop (JObj kvs) ''start_side''\<rparr>"
  using assms
  by (simp add: draft_def set_defaults_def review_request_def update_conv' Let_def)

lemma map_filter_none:
  assumes "\<forall>s \<in> set ms. f s = None"
  shows "List.map_filter f ms = []"
  using assms by (induction ms) simp_all

lemma map_filter_some:
  assumes "\<forall>s \<in> set ms. f s \<noteq> None"
  shows "List.map_filter f ms = map (\<lambda>s. the (f s)) ms"
  using assms by (induction ms) auto

lemma loop_inline_start:
  assumes "ask_model E = (t, r)"
  shows "map fst (inline_requests (foldl (post_segment E pr) (t @ [Info m]) ms))
           = List.map_filter (draft E pr) ms"
  using ask_model_reads [OF assms] by (simp add: loop_inline)

lemma run_matches:
  assumes "ask_model E = (t, Inr (pr, JStr text))" and "js_match text \<noteq> []"
  shows "run E = completed (foldl (post_segment E pr)
                    (t @ [Info (''AI Review Response: '' @ text)]) (js_match text))"
  using run_text [OF assms(1)] assms(2) by (simp add: Let_def)

lemma run_matches_inline:
  assumes "ask_model E = (t, Inr (pr, JStr text))" and "js_match text \<noteq> []"
  shows "map fst (inline_requests (run E)) = List.map_filter (draft E pr) (js_match text)"
  by (simp add: run_matches [OF assms] loop_inline_start [OF assms(1)])

lemma run_matches_quiet:
  assumes "ask_model E = (t, Inr (pr, JStr text))" and "js_match text \<noteq> []"
  shows "discussion_requests (run E) = [] \<and> failures (run E) = [] \<and> succeeded (run E)"
  using ask_model_reads [OF assms(1)] by (simp add: run_matches [OF assms])

lemma draft_rejected:
  assumes "(\<exists>msg. json_parse E s = Inl msg)
           \<or> (\<exists>cd. json_parse E s = Inr cd \<and> required_fields cd = Inr False)"
  shows "draft E pr s = None"
  using assms by (auto simp: draft_def)

lemma draft_valid:
  assumes "json_parse E s = Inr cd" and "required_fields cd = Inr True"
  shows "draft E pr s = Some (review_request E (set_defaults pr cd))"
  using assms by (simp add: draft_def)

lemma valid_drafts:
  assumes "\<forall>s \<in> set ms. \<exists>cd. json_parse E s = Inr cd \<and> required_fields cd = Inr True"
  shows "List.map_filter (draft E pr) ms = map (\<lambda>s. the (draft E pr s)) ms"
proof (rule map_filter_some)
  show "\<forall>s \<in> set ms. draft E pr s \<noteq> None"
    using assms draft_valid by fastforce
qed

lemma run_no_match:
  assumes "ask_model E = (t, Inr (pr, JStr text))" and "js_match text = []"
  shows "inline_requests (run E) = [] \<and> warnings (run E) = []"
  using ask_model_reads [OF assms(1)] assms(2)
  by (simp add: run_text [OF assms(1)] create_comment_def Let_def split: outcome.splits)

lemma post_segment_rejections:
  assumes "\<forall>r msg. (r, Rejected msg) \<in> set (inline_requests t) \<longrightarrow>
             ''Failed to parse JSON comment: '' @ msg \<in> set (warnings t)"
  shows "\<forall>r msg. (r, Rejected msg) \<in> set (inline_requests (post_segment E pr t s)) \<longrightarrow>
           ''Failed to parse JSON comment: '' @ msg \<in> set (warnings (post_segment E pr t s))"
  using assms
  by (auto simp: post_segment_def Let_def split: sum.splits outcome.splits)

lemma loop_rejections:
  assumes "\<forall>r msg. (r, Rejected msg) \<in> set (inline_requests t) \<longrightarrow>
             ''Failed to parse JSON comment: '' @ msg \<in> set (warnings t)"
  shows "\<forall>r msg. (r, Rejected msg) \<in> set (inline_requests (foldl (post_segment E pr) t ms)) \<longrightarrow>
           ''Failed to parse JSON comment: '' @ msg
             \<in> set (warnings (foldl (post_segment E pr) t ms))"
  using assms
proof (induction ms arbitrary: t)
  case Nil
  then show ?case by simp
next
  case (Cons s ms)
  show ?case
    using Cons.IH [OF post_segment_rejections [OF Cons.prems]] by simp
qed

lemma run_positive:
  assumes "ask_model E = (t, Inr (pr, feedback))"
    and "js_to_string (number_to_string E) feedback = Inr shown"
    and "js_get feedback ''is_ok'' = Inr flag" and "js_truthy flag"
    and "\<forall>tr c. issues_createComment E tr c = Accepted"
  shows "run E = completed (t @ [Info (''AI Review Response: '' @ shown),
            CreateComment \<lparr>ic_owner = repo_owner E, ic_repo = repo_name E,
                            ic_issue_number = github_pr_id E,
                            ic_body = js_prop feedback ''body''\<rparr> Accepted,
            Info ''No issues found - posted positive feedback''])"
  using assms by (simp add: run_def review_feedback_def create_comment_def Let_def)

lemma js_match_no_brace:
  assumes "CHR ''{'' \<notin> set s"
  shows "js_match s = []"
  using assms by (induction s) auto

lemma post_segment_warnings_kept:
  assumes "w \<in> set (warnings t)"
  shows "w \<in> set (warnings (post_segment E pr t s))"
proof -
  obtain u where "post_segment E pr t s = t @ u"
    using post_segment_extends by blast
  then show ?thesis using assms by simp
qed

lemma post_segment_unparsable:
  assumes "json_parse E s = Inl msg"
  shows "post_segment E pr t s = parse_warning t msg"
  using assms by (simp add: post_segment_def)

lemma post_segment_skipped:
  assumes "json_parse E s = Inr v" and "required_fields v = Inr False"
  shows "post_segment E pr t s = t"
  using assms by (simp add: post_segment_def)

text \<open>
  Without any match the raw text is posted as one discussion comment (lines 244-249).
\<close>

lemma no_match_falls_back:
  assumes "ask_model E = (t, Inr (pr, JStr text))" and "js_match text = []"
    and "\<forall>tr c. issues_createComment E tr c = Accepted"
  shows "discussion_requests (run E) = [(JStr text, Accepted)] \<and> inline_requests (run E) = []"
  using ask_model_reads [OF assms(1)] assms(2,3)
  by (simp add: run_text [OF assms(1)] create_comment_def Let_def)

text \<open>
  Matches that all parse and pass the check of line 217 are all submitted, in order; a
  match without \<^verbatim>\<open>commit_id\<close> gets the head commit, one without \<^verbatim>\<open>side\<close> gets
  \<^verbatim>\<open>RIGHT\<close>.
\<close>

lemma parsing_matches_are_all_submitted:
  assumes "ask_model E = (t, Inr (pr, JStr text))"
    and "1 \<le> length (js_match text)" and "length (js_match text) \<le> 3"
    and "\<forall>s \<in> set (js_match text).
           \<exists>cd. json_parse E s = Inr cd \<and> required_fields cd = Inr True"
  shows "length (inline_requests (run E)) = length (js_match text)
         \<and> (\<forall>i < length (js_match text). \<forall>kvs.
               json_parse E (js_match text ! i) = Inr (JObj kvs) \<longrightarrow>
                 (map_of kvs ''commit_id'' = None \<longrightarrow>
                    rc_commit_id (fst (inline_requests (run E) ! i)) = JStr (pr_head_sha pr))
               \<and> (map_of kvs ''side'' = None \<longrightarrow>
                    rc_side (fst (inline_requests (run E) ! i)) = JStr ''RIGHT''))"
proof -
  have ne: "js_match text \<noteq> []"
    using assms(2) by auto
  have reqs: "map fst (inline_requests (run E)) = map (\<lambda>s. the (draft E pr s)) (js_match text)"
    using run_matches_inline [OF assms(1) ne] valid_drafts [OF assms(4)] by simp
  then have "length (map fst (inline_requests (run E))) = length (js_match text)"
    by simp
  then have len: "length (inline_requests (run E)) = length (js_match text)"
    by simp
  have req: "fst (inline_requests (run E) ! i) = the (draft E pr (js_match text ! i))"
    if "i < length (js_match text)" for i
  proof -
    have "fst (inline_requests (run E) ! i) = map fst (inline_requests (run E)) ! i"
      using that len by simp
    also have "\<dots> = the (draft E pr (js_match text ! i))"
      using that by (simp add: reqs)
    finally show ?thesis .
  qed
  have valid: "required_fields (JObj kvs) = Inr True"
    if "i < length (js_match text)" and "json_parse E (js_match text ! i) = Inr (JObj kvs)"
    for i kvs
  proof -
    have "js_match text ! i \<in> set (js_match text)"
      using that(1) by simp
    then show ?thesis
      using assms(4) that(2) by fastforce
  qed
  show ?thesis
  proof (intro conjI allI impI)
    show "length (inline_requests (run E)) = length (js_match text)"
      by (rule len)
  next
    fix i kvs
    assume i: "i < length (js_match text)"
      and p: "json_parse E (js_match text ! i) = Inr (JObj kvs)"
      and "map_of kvs ''commit_id'' = None"
    then show "rc_commit_id (fst (inline_requests (run E) ! i)) = JStr (pr_head_sha pr)"
      by (simp add: req [OF i] draft_object [OF p valid [OF i p]] js_or_def)
  next
    fix i kvs
    assume i: "i < length (js_match text)"
      and p: "json_parse E (js_match text ! i) = Inr (JObj kvs)"
      and "map_of kvs ''side'' = None"
    then show "rc_side (fst (inline_requests (run E) ! i)) = JStr ''RIGHT''"
      by (simp add: req [OF i] draft_object [OF p valid [OF i p]] js_or_def)
  qed
qed

section \<open>The sample invocations, evaluated\<close>

lemma sample_ask_model: "ask_model (sample_env fb) = (sample_log, Inr (sample_pull, fb))"
  by (simp add: ask_model_def fetch_context_def build_prompt_def sample_env_def sample_log_def
      sample_pull_def)

lemma sample_run_matches:
  assumes "js_match text \<noteq> []"
  shows "run (sample_env (JStr text)) =
     completed (foldl (post_segment (sample_env (JStr text)) sample_pull)
                  (sample_log @ [Info (''AI Review Response: '' @ text)]) (js_match text))"
  using run_matches [OF sample_ask_model assms] .

lemmas sample_defs =
  sample_env_def sample_parse_def sample_format_def sample_pull_def sample_log_def
  seg_min_def seg_full_def seg_nopath_def seg_empty_body_def seg_stale_def
  obj_min_def obj_full_def

lemmas segment_defs =
  post_segment_def required_fields_def set_defaults_def review_request_def js_or_def
  parse_warning_def completed_def succeeded_def Let_def

lemma match_mixed: "js_match resp_mixed = [seg_min, seg_nopath]"
  by (simp add: resp_mixed_def sample_defs)

lemma match_garbled: "js_match resp_garbled = [''{this}'', seg_min]"
  by (simp add: resp_garbled_def sample_defs)

lemma match_unparsable: "js_match resp_unparsable = [''{this}'']"
  by (simp add: resp_unparsable_def)

lemma match_rejected: "js_match resp_rejected = [''{this}'', seg_nopath]"
  by (simp add: resp_rejected_def sample_defs)

lemma match_two: "js_match resp_two = [seg_min, seg_full]"
  by (simp add: resp_two_def sample_defs)

lemma match_seg_min_first: "js_match (seg_min @ rest) = seg_min # js_match rest"
  by (simp add: seg_min_def)

lemma match_many: "js_match (resp_many n) = replicate n seg_min"
  by (induction n) (simp_all add: resp_many_def match_seg_min_first)

lemma match_stale: "js_match resp_stale = [seg_stale, seg_min]"
  by (simp add: resp_stale_def sample_defs)

lemma parse_min: "sample_parse seg_min = Inr obj_min"
  by (simp add: sample_parse_def)

lemma parse_full: "sample_parse seg_full = Inr obj_full"
  by (simp add: sample_parse_def seg_min_def seg_full_def)

lemma parse_nopath: "sample_parse seg_nopath = Inr (JObj [(''body'', JStr ''Looks odd'')])"
  by (simp add: sample_parse_def seg_min_def seg_full_def seg_nopath_def)

lemma parse_stale:
  "sample_parse seg_stale =
     Inr (JObj [(''body'', JStr ''Old''), (''path'', JStr ''gone.py''), (''line'', JNum 999)])"
  by (simp add: sample_parse_def seg_min_def seg_full_def seg_nopath_def
      seg_empty_body_def seg_stale_def)

lemma parse_this: "sample_parse ''{this}'' = Inl ''Unexpected token''"
  by (simp add: sample_parse_def seg_min_def seg_full_def seg_nopath_def
      seg_empty_body_def seg_stale_def)

lemma valid_min: "required_fields obj_min = Inr True"
  by (simp add: required_fields_def obj_min_def)

lemma valid_full: "required_fields obj_full = Inr True"
  by (simp add: required_fields_def obj_full_def)

lemma invalid_nopath: "required_fields (JObj [(''body'', JStr ''Looks odd'')]) = Inr False"
  by (simp add: required_fields_def)

lemmas sample_parses = parse_min parse_full parse_nopath parse_stale parse_this

lemmas sample_values =
  obj_min_def obj_full_def sample_env_def sample_format_def sample_pull_def sample_log_def

section \<open>The claims\<close>

text \<open>
  In the theorems below a response is the content the completion model returned, after
  the context was fetched: \<open>ask_model E = (t, Inr (pr, feedback))\<close>. The loop works
  on the matches of the scan \<open>js_match\<close>; a match is well-formed and schema-valid when
  \<^verbatim>\<open>JSON.parse\<close> accepts it and the check of line 217 holds of the result
  (\<open>required_fields cd = Inr True\<close>). A submission is a request to create a comment,
  whatever its outcome.
\<close>

text \<open>
  Claim C1: a response recognised as a positive verdict (an explicit flag \<^verbatim>\<open>is_ok\<close>
  that is true, or, as free text, the literal approval phrase) leads to exactly one
  discussion comment carrying the verdict's summary, to no inline comment, and the run
  stops. Line 197 tests \<^verbatim>\<open>feedback.is_ok\<close> on \<^verbatim>\<open>message.content\<close>, which is a
  string: the flag of a verdict that arrives as JSON text is never seen. The text then
  goes through the scan of line 209 as one match, parses, lacks \<^verbatim>\<open>path\<close>, and is
  skipped in silence: no comment of either kind is requested, no warning is logged, and
  success is reported.
\<close>

theorem flagged_verdict_as_text_posts_nothing:
  "json_parse verdict_env verdict_text = Inr verdict_ok
   \<and> js_prop verdict_ok ''is_ok'' = JBool True
   \<and> js_get (JStr verdict_text) ''is_ok'' = Inr JUndefined
   \<and> js_match verdict_text = [verdict_text]
   \<and> required_fields verdict_ok = Inr False
   \<and> discussion_requests (run verdict_env) = []
   \<and> inline_requests (run verdict_env) = []
   \<and> warnings (run verdict_env) = []
   \<and> failures (run verdict_env) = []
   \<and> succeeded (run verdict_env)"
proof -
  have a: "ask_model verdict_env = (sample_log, Inr (sample_pull, JStr verdict_text))"
    by (simp add: verdict_env_def ask_model_def fetch_context_def build_prompt_def
        sample_env_def sample_log_def sample_pull_def)
  have m: "js_match verdict_text = [verdict_text]"
    by (simp add: verdict_text_def)
  have p: "json_parse verdict_env verdict_text = Inr verdict_ok"
    by (simp add: verdict_env_def)
  have v: "required_fields verdict_ok = Inr False"
    by (simp add: required_fields_def verdict_ok_def)
  have ne: "js_match verdict_text \<noteq> []"
    by (simp add: m)
  have "run verdict_env
          = completed (sample_log @ [Info (''AI Review Response: '' @ verdict_text)])"
    by (simp add: run_matches [OF a ne] m post_segment_skipped [OF p v])
  then have "discussion_requests (run verdict_env) = []
             \<and> inline_requests (run verdict_env) = []
             \<and> warnings (run verdict_env) = []
             \<and> failures (run verdict_env) = []
             \<and> succeeded (run verdict_env)"
    by (simp add: sample_log_def)
  then show ?thesis
    using m p v by (simp add: verdict_ok_def)
qed

text \<open>
  Claim C2: a response with no recoverable segment and no positive verdict is posted
  whole as one fallback discussion comment, so that the reviewer always sees a comment.
  The comment and the log line of lines 243-250 say the same (\<^verbatim>\<open>no valid JSON found\<close>),
  but the fallback is taken only when the scan finds no match at all. The response
  \<^verbatim>\<open>Please fix {this}\<close> holds one match, which is not JSON: a warning is logged, no
  comment of either kind is requested, and success is reported.
\<close>

theorem unparsable_match_suppresses_fallback:
  "js_match resp_unparsable = [''{this}'']
   \<and> json_parse (sample_env (JStr resp_unparsable)) ''{this}'' = Inl ''Unexpected token''
   \<and> discussion_requests (run (sample_env (JStr resp_unparsable))) = []
   \<and> inline_requests (run (sample_env (JStr resp_unparsable))) = []
   \<and> warnings (run (sample_env (JStr resp_unparsable)))
       = [''Failed to parse JSON comment: Unexpected token'']
   \<and> succeeded (run (sample_env (JStr resp_unparsable)))"
proof -
  have "js_match resp_unparsable \<noteq> []"
    by (simp add: match_unparsable)
  note r = sample_run_matches [OF this]
  have "discussion_requests (run (sample_env (JStr resp_unparsable))) = []
        \<and> inline_requests (run (sample_env (JStr resp_unparsable))) = []
        \<and> warnings (run (sample_env (JStr resp_unparsable)))
            = [''Failed to parse JSON comment: Unexpected token'']
        \<and> succeeded (run (sample_env (JStr resp_unparsable)))"
    unfolding r match_unparsable
    by (simp add: post_segment_def sample_env_def sample_parses sample_log_def)
  then show ?thesis
    by (simp add: match_unparsable sample_env_def sample_parses)
qed

text \<open>
  Claim C3: a response that holds N well-formed, schema-valid comment segments, with N
  between 1 and 3, leads to exactly N inline submissions, with the head commit and the
  side \<^verbatim>\<open>RIGHT\<close> filled in where the segment omits them. The scan of line 209 ends a
  match at the first closing brace, also inside a string. The response below is one
  comment that \<^verbatim>\<open>JSON.parse\<close> accepts and that passes the check of line 217, with a
  body that quotes \<^verbatim>\<open>{x}\<close>: the scan hands the loop only the part up to that brace,
  which does not parse. One warning is logged, no comment of either kind is requested,
  and success is reported.
\<close>

theorem brace_in_body_loses_the_comment:
  "json_parse braces_env seg_braces = Inr obj_braces
   \<and> required_fields obj_braces = Inr True
   \<and> js_match seg_braces = [seg_braces_cut]
   \<and> json_parse braces_env seg_braces_cut = Inl ''Unexpected token''
   \<and> inline_requests (run braces_env) = []
   \<and> discussion_requests (run braces_env) = []
   \<and> warnings (run braces_env) = [''Failed to parse JSON comment: Unexpected token'']
   \<and> failures (run braces_env) = []
   \<and> succeeded (run braces_env)"
proof -
  have a: "ask_model braces_env = (sample_log, Inr (sample_pull, JStr seg_braces))"
    by (simp add: braces_env_def ask_model_def fetch_context_def build_prompt_def
        sample_env_def sample_log_def sample_pull_def)
  have m: "js_match seg_braces = [seg_braces_cut]"
    by (simp add: seg_braces_def seg_braces_cut_def)
  have whole: "json_parse braces_env seg_braces = Inr obj_braces"
    by (simp add: braces_env_def)
  have v: "required_fields obj_braces = Inr True"
    by (simp add: required_fields_def obj_braces_def)
  have part: "json_parse braces_env seg_braces_cut = Inl ''Unexpected token''"
    by (simp add: braces_env_def sample_parse_def seg_braces_def seg_braces_cut_def
        seg_min_def seg_full_def seg_nopath_def seg_empty_body_def seg_stale_def)
  have ne: "js_match seg_braces \<noteq> []"
    by (simp add: m)
  have "run braces_env
          = completed (parse_warning
              (sample_log @ [Info (''AI Review Response: '' @ seg_braces)])
              ''Unexpected token'')"
    by (simp add: run_matches [OF a ne] m post_segment_unparsable [OF part])
  then have "inline_requests (run braces_env) = []
             \<and> discussion_requests (run braces_env) = []
             \<and> warnings (run braces_env) = [''Failed to parse JSON comment: Unexpected token'']
             \<and> failures (run braces_env) = []
             \<and> succeeded (run braces_env)"
    by (simp add: sample_log_def)
  then show ?thesis
    using m whole v part by simp
qed

text \<open>
  Claim C4: the limit of three comments is stated in the prompt only; the loop of lines
  212-241 has no cap, so a response whose N segments are all well-formed and schema-valid
  leads to N inline submissions, for every N. (The prompt's text is outside this model;
  the theorem is about the loop.)
\<close>

theorem submission_loop_has_no_cap:
  assumes "ask_model E = (t, Inr (pr, JStr text))"
    and "\<forall>s \<in> set (js_match text).
           \<exists>cd. json_parse E s = Inr cd \<and> required_fields cd = Inr True"
  shows "length (inline_requests (run E)) = length (js_match text)"
proof (cases "js_match text = []")
  case True
  then show ?thesis
    using run_no_match [OF assms(1) True] by simp
next
  case False
  have "map fst (inline_requests (run E)) = map (\<lambda>s. the (draft E pr s)) (js_match text)"
    using run_matches_inline [OF assms(1) False] valid_drafts [OF assms(2)] by simp
  then have "length (map fst (inline_requests (run E))) = length (js_match text)"
    by simp
  then show ?thesis by simp
qed

theorem submission_loop_witness:
  "\<forall>n. length (js_match (resp_many n)) = n
       \<and> length (inline_requests (run (sample_env (JStr (resp_many n))))) = n"
proof
  fix n
  have ok: "\<forall>s \<in> set (js_match (resp_many n)).
              \<exists>cd. json_parse (sample_env (JStr (resp_many n))) s = Inr cd
                   \<and> required_fields cd = Inr True"
    by (simp add: match_many sample_env_def parse_min valid_min)
  show "length (js_match (resp_many n)) = n
       \<and> length (inline_requests (run (sample_env (JStr (resp_many n))))) = n"
    using submission_loop_has_no_cap [OF sample_ask_model ok] by (simp add: match_many)
qed

text \<open>
  Claim C5, as stated: a response with one well-formed segment and one malformed segment
  (unbalanced braces, or a violation of the schema) leads to exactly one inline
  submission, the malformed segment is skipped with a warning, and no fatal error is
  raised. The warning is the \<^verbatim>\<open>catch\<close> of line 238 and is reached only when something
  throws: a segment that parses and fails the check of line 217 is skipped with no
  warning, the \<^verbatim>\<open>if\<close> having no \<^verbatim>\<open>else\<close>. In the sample below the second segment has
  a body and neither path nor line; the run logs no warning at all.
\<close>

theorem schema_violation_is_not_warned_counterexample:
  "js_match resp_mixed = [seg_min, seg_nopath]
   \<and> json_parse (sample_env (JStr resp_mixed)) seg_min = Inr obj_min
   \<and> required_fields obj_min = Inr True
   \<and> json_parse (sample_env (JStr resp_mixed)) seg_nopath
       = Inr (JObj [(''body'', JStr ''Looks odd'')])
   \<and> required_fields (JObj [(''body'', JStr ''Looks odd'')]) = Inr False
   \<and> length (inline_requests (run (sample_env (JStr resp_mixed)))) = 1
   \<and> warnings (run (sample_env (JStr resp_mixed))) = []"
proof -
  have "js_match resp_mixed \<noteq> []"
    by (simp add: match_mixed)
  note r = sample_run_matches [OF this]
  have "inline_requests (run (sample_env (JStr resp_mixed)))
          = [(review_request (sample_env (JStr resp_mixed)) (set_defaults sample_pull obj_min),
              Accepted)]
        \<and> warnings (run (sample_env (JStr resp_mixed))) = []"
    unfolding r match_mixed
    by (simp add: segment_defs sample_parses sample_values)
  then show ?thesis
    by (simp add: match_mixed sample_parses valid_min invalid_nopath sample_env_def)
qed

text \<open>
  Claim C5, amended: a response whose two segments are one well-formed, schema-valid
  comment and one malformed segment, in either order, leads to exactly one inline
  submission, raises no fatal error and reports success. When the malformed segment does
  not parse, a warning with the parser's message is logged. When it parses and fails the
  check of the required fields, it leaves no trace: the log is the log of the
  well-formed segment alone.
\<close>

theorem malformed_segment_is_skipped:
  assumes "ask_model E = (t, Inr (pr, JStr text))"
    and "js_match text = [good, bad] \<or> js_match text = [bad, good]"
    and "json_parse E good = Inr cd" and "required_fields cd = Inr True"
    and "(\<exists>msg. json_parse E bad = Inl msg)
         \<or> (\<exists>v. json_parse E bad = Inr v \<and> required_fields v = Inr False)"
  shows "length (inline_requests (run E)) = 1 \<and> failures (run E) = [] \<and> succeeded (run E)
         \<and> (\<forall>msg. json_parse E bad = Inl msg \<longrightarrow>
               ''Failed to parse JSON comment: '' @ msg \<in> set (warnings (run E)))
         \<and> (\<forall>v. json_parse E bad = Inr v \<longrightarrow>
               run E = completed (post_segment E pr
                         (t @ [Info (''AI Review Response: '' @ text)]) good))"
proof -
  have ne: "js_match text \<noteq> []"
    using assms(2) by auto
  have g: "draft E pr good = Some (review_request E (set_defaults pr cd))"
    using assms(3,4) by (rule draft_valid)
  have b: "draft E pr bad = None"
    using assms(5) by (rule draft_rejected)
  have "map fst (inline_requests (run E)) = [review_request E (set_defaults pr cd)]"
    using assms(2) g b by (auto simp: run_matches_inline [OF assms(1) ne])
  then have "length (map fst (inline_requests (run E))) = 1"
    by simp
  then have one: "length (inline_requests (run E)) = 1"
    by simp
  have warned: "''Failed to parse JSON comment: '' @ msg \<in> set (warnings (run E))"
    if "json_parse E bad = Inl msg" for msg
    using assms(2)
  proof
    assume "js_match text = [good, bad]"
    then show ?thesis
      by (simp add: run_matches [OF assms(1) ne] post_segment_unparsable [OF that])
  next
    assume "js_match text = [bad, good]"
    then show ?thesis
      by (simp add: run_matches [OF assms(1) ne] post_segment_unparsable [OF that]
          post_segment_warnings_kept)
  qed
  have silent: "run E = completed (post_segment E pr
                         (t @ [Info (''AI Review Response: '' @ text)]) good)"
    if "json_parse E bad = Inr v" for v
  proof -
    have "required_fields v = Inr False"
      using assms(5) that by auto
    then have "\<And>u. post_segment E pr u bad = u"
      using that by (simp add: post_segment_skipped)
    then show ?thesis
      using assms(2) by (auto simp: run_matches [OF assms(1) ne])
  qed
  show ?thesis
    using one warned silent run_matches_quiet [OF assms(1) ne] by blast
qed

theorem malformed_segment_witness:
  "js_match resp_garbled = [''{this}'', seg_min]
   \<and> length (inline_requests (run (sample_env (JStr resp_garbled)))) = 1
   \<and> failures (run (sample_env (JStr resp_garbled))) = []
   \<and> succeeded (run (sample_env (JStr resp_garbled)))
   \<and> ''Failed to parse JSON comment: Unexpected token''
       \<in> set (warnings (run (sample_env (JStr resp_garbled))))"
proof -
  have m: "js_match resp_garbled = [seg_min, ''{this}''] \<or> js_match resp_garbled = [''{this}'', seg_min]"
    by (simp add: match_garbled)
  have g: "json_parse (sample_env (JStr resp_garbled)) seg_min = Inr obj_min"
    by (simp add: sample_env_def parse_min)
  have b: "(\<exists>msg. json_parse (sample_env (JStr resp_garbled)) ''{this}'' = Inl msg)
           \<or> (\<exists>v. json_parse (sample_env (JStr resp_garbled)) ''{this}'' = Inr v
                  \<and> required_fields v = Inr False)"
    by (simp add: sample_env_def parse_this)
  have e: "json_parse (sample_env (JStr resp_garbled)) ''{this}'' = Inl ''Unexpected token''"
    by (simp add: sample_env_def parse_this)
  show ?thesis
    using malformed_segment_is_skipped [OF sample_ask_model m g valid_min b] e
    by (simp add: match_garbled)
qed

text \<open>
  Claim C6: when the context-fetch stage fails (the client cannot be built, or one of
  the four reads of lines 19-44 throws), the completion model is not called, no comment
  is requested, and the invocation reports failure with the message of the error.
\<close>

theorem context_fetch_failure_is_fatal:
  assumes "fetch_context E = Inl msg"
  shows "run E = [Info (''Starting PR review for PR #'' @ github_pr_id E),
                  SetFailed (''Action failed with error: '' @ msg)]
         \<and> model_calls (run E) = [] \<and> discussion_requests (run E) = []
         \<and> inline_requests (run E) = []
         \<and> failures (run E) = [''Action failed with error: '' @ msg]
         \<and> \<not> succeeded (run E)"
  using assms by (simp add: run_def ask_model_def set_failed_def succeeded_def)

theorem context_fetch_failure_witness:
  "fetch_context ((sample_env JNull)\<lparr>pulls_get := Inl ''Not Found''\<rparr>) = Inl ''Not Found''
   \<and> run ((sample_env JNull)\<lparr>pulls_get := Inl ''Not Found''\<rparr>) =
       [Info ''Starting PR review for PR #7'', SetFailed ''Action failed with error: Not Found'']
   \<and> model_calls (run ((sample_env JNull)\<lparr>pulls_get := Inl ''Not Found''\<rparr>)) = []"
proof -
  have h: "fetch_context ((sample_env JNull)\<lparr>pulls_get := Inl ''Not Found''\<rparr>) = Inl ''Not Found''"
    by (simp add: fetch_context_def sample_env_def)
  show ?thesis
    using context_fetch_failure_is_fatal [OF h] h by (simp add: sample_env_def)
qed

text \<open>
  Claim C7: a failure while submitting one inline comment is not fatal. Every draft is
  submitted, in the order of the segments, and the requests made are the same whatever
  the client answers to each of them; each rejected request leaves a warning with the
  error's message; no failure is reported and the invocation ends with success.
\<close>

theorem rejected_submission_is_not_fatal:
  assumes "ask_model E = (t, Inr (pr, JStr text))"
    and "js_match text \<noteq> []"
  shows "map fst (inline_requests (run E)) = List.map_filter (draft E pr) (js_match text)
         \<and> (\<forall>f. map fst (inline_requests (run (E\<lparr>pulls_createReviewComment := f\<rparr>)))
                  = map fst (inline_requests (run E)))
         \<and> (\<forall>r msg. (r, Rejected msg) \<in> set (inline_requests (run E)) \<longrightarrow>
               ''Failed to parse JSON comment: '' @ msg \<in> set (warnings (run E)))
         \<and> failures (run E) = [] \<and> succeeded (run E)"
proof -
  have "\<forall>r msg. (r, Rejected msg)
            \<in> set (inline_requests (t @ [Info (''AI Review Response: '' @ text)])) \<longrightarrow>
          ''Failed to parse JSON comment: '' @ msg
            \<in> set (warnings (t @ [Info (''AI Review Response: '' @ text)]))"
    using ask_model_reads [OF assms(1)] by simp
  from loop_rejections [OF this]
  have warned: "\<forall>r msg. (r, Rejected msg) \<in> set (inline_requests (run E)) \<longrightarrow>
          ''Failed to parse JSON comment: '' @ msg \<in> set (warnings (run E))"
    by (simp add: run_matches [OF assms])
  have same: "map fst (inline_requests (run (E\<lparr>pulls_createReviewComment := f\<rparr>)))
                = map fst (inline_requests (run E))" for f
  proof -
    have "ask_model (E\<lparr>pulls_createReviewComment := f\<rparr>) = (t, Inr (pr, JStr text))"
      using assms(1) by (simp add: ask_model_outcomes)
    from run_matches_inline [OF this assms(2)] run_matches_inline [OF assms]
    show ?thesis by (simp add: draft_outcomes)
  qed
  show ?thesis
    using warned same run_matches_inline [OF assms] run_matches_quiet [OF assms] by simp
qed

theorem rejected_submission_witness:
  "map snd (inline_requests (run (sample_env (JStr resp_stale))))
     = [Rejected ''Validation Failed'', Accepted]
   \<and> map (rc_path \<circ> fst) (inline_requests (run (sample_env (JStr resp_stale))))
     = [JStr ''gone.py'', JStr ''code.py'']
   \<and> warnings (run (sample_env (JStr resp_stale)))
     = [''Failed to parse JSON comment: Validation Failed'']
   \<and> failures (run (sample_env (JStr resp_stale))) = []
   \<and> succeeded (run (sample_env (JStr resp_stale)))"
proof -
  have ne: "js_match resp_stale \<noteq> []"
    by (simp add: match_stale)
  note r = sample_run_matches [OF ne]
  have "map snd (inline_requests (run (sample_env (JStr resp_stale))))
          = [Rejected ''Validation Failed'', Accepted]
        \<and> map (rc_path \<circ> fst) (inline_requests (run (sample_env (JStr resp_stale))))
          = [JStr ''gone.py'', JStr ''code.py'']
        \<and> warnings (run (sample_env (JStr resp_stale)))
          = [''Failed to parse JSON comment: Validation Failed'']"
    unfolding r match_stale
    by (simp add: segment_defs sample_parses sample_values)
  then show ?thesis
    using rejected_submission_is_not_fatal [OF sample_ask_model ne] by simp
qed

text \<open>
  Claim C8: when the response holds at least one brace-delimited match and every match is
  rejected (it does not parse, or it parses and the check of body, path and line fails,
  as it does when one of them is missing), no comment of either kind is requested, and
  the invocation still completes and sets the output \<^verbatim>\<open>success\<close> to \<^verbatim>\<open>true\<close>.
\<close>

theorem rejected_matches_post_nothing:
  assumes "ask_model E = (t, Inr (pr, JStr text))"
    and "js_match text \<noteq> []"
    and "\<forall>s \<in> set (js_match text).
           (\<exists>msg. json_parse E s = Inl msg)
           \<or> (\<exists>cd. json_parse E s = Inr cd \<and> required_fields cd = Inr False)"
  shows "discussion_requests (run E) = [] \<and> inline_requests (run E) = []
         \<and> failures (run E) = [] \<and> succeeded (run E)"
proof -
  have "\<forall>s \<in> set (js_match text). draft E pr s = None"
    using assms(3) draft_rejected by blast
  then have "List.map_filter (draft E pr) (js_match text) = []"
    by (rule map_filter_none)
  then have "map fst (inline_requests (run E)) = []"
    using run_matches_inline [OF assms(1,2)] by simp
  then show ?thesis
    using run_matches_quiet [OF assms(1,2)] by simp
qed

theorem rejected_matches_witness:
  "js_match resp_rejected = [''{this}'', seg_nopath]
   \<and> discussion_requests (run (sample_env (JStr resp_rejected))) = []
   \<and> inline_requests (run (sample_env (JStr resp_rejected))) = []
   \<and> failures (run (sample_env (JStr resp_rejected))) = []
   \<and> succeeded (run (sample_env (JStr resp_rejected)))"
proof -
  have ne: "js_match resp_rejected \<noteq> []"
    by (simp add: match_rejected)
  have rej: "\<forall>s \<in> set (js_match resp_rejected).
               (\<exists>msg. json_parse (sample_env (JStr resp_rejected)) s = Inl msg)
               \<or> (\<exists>cd. json_parse (sample_env (JStr resp_rejected)) s = Inr cd
                       \<and> required_fields cd = Inr False)"
    by (simp add: match_rejected sample_env_def sample_parses invalid_nopath)
  show ?thesis
    using rejected_matches_post_nothing [OF sample_ask_model ne rej]
    by (simp add: match_rejected)
qed

text \<open>
  Claim C9: the check of line 217 reads truthiness, not presence. A parsed segment whose
  body is the empty string, or whose line is 0, or whose path is the empty string, is
  skipped silently: the round of the loop leaves the log as it was (no inline comment,
  no warning), and the loop runs as if the segment were not there.
\<close>

theorem falsy_required_field_is_skipped_silently:
  assumes "json_parse E s = Inr (JObj kvs)"
    and "map_of kvs ''body'' = Some (JStr [])
         \<or> map_of kvs ''line'' = Some (JNum 0)
         \<or> map_of kvs ''path'' = Some (JStr [])"
  shows "post_segment E pr t s = t
         \<and> foldl (post_segment E pr) t (before @ s # after)
             = foldl (post_segment E pr) t (before @ after)"
proof -
  have "required_fields (JObj kvs) = Inr False"
    using assms(2) by (auto simp: required_fields_def)
  then have "\<And>u. post_segment E pr u s = u"
    using assms(1) by (simp add: post_segment_def)
  then show ?thesis by simp
qed

theorem falsy_required_field_witness:
  "json_parse (sample_env JNull) seg_empty_body
     = Inr (JObj [(''body'', JStr []), (''path'', JStr ''a.py''), (''line'', JNum 3)])
   \<and> post_segment (sample_env JNull) sample_pull sample_log seg_empty_body = sample_log
   \<and> foldl (post_segment (sample_env JNull) sample_pull) sample_log [seg_min, seg_empty_body]
       = foldl (post_segment (sample_env JNull) sample_pull) sample_log [seg_min]"
proof -
  have h: "json_parse (sample_env JNull) seg_empty_body
     = Inr (JObj [(''body'', JStr []), (''path'', JStr ''a.py''), (''line'', JNum 3)])"
    by (simp add: sample_env_def sample_parse_def seg_empty_body_def seg_min_def seg_full_def
        seg_nopath_def)
  show ?thesis
    using h falsy_required_field_is_skipped_silently
      [OF h, of sample_pull sample_log "[seg_min]" "[]"]
    by simp
qed

text \<open>
  Claim C10: of a postable segment only \<^verbatim>\<open>commit_id\<close> and \<^verbatim>\<open>side\<close> are defaulted.
  The request carries \<^verbatim>\<open>body\<close>, \<^verbatim>\<open>path\<close>, \<^verbatim>\<open>line\<close>, \<^verbatim>\<open>start_line\<close> and
  \<^verbatim>\<open>start_side\<close> as parsed; a missing \<^verbatim>\<open>start_side\<close> stays \<^verbatim>\<open>undefined\<close>, also
  when \<^verbatim>\<open>start_line\<close> is there.
\<close>

theorem only_commit_id_and_side_are_defaulted:
  fixes E :: env and pr :: pull and kvs :: "(string \<times> jsval) list" and r :: review_comment
  assumes "json_parse E s = Inr (JObj kvs)"
    and "required_fields (JObj kvs) = Inr True"
  defines "r \<equiv>
     \<lparr>rc_owner = repo_owner E, rc_repo = repo_name E, rc_pull_number = github_pr_id E,
      rc_body = js_prop (JObj kvs) ''body'',
      rc_commit_id = js_or (js_prop (JObj kvs) ''commit_id'') (JStr (pr_head_sha pr)),
      rc_path = js_prop (JObj kvs) ''path'',
      rc_line = js_prop (JObj kvs) ''line'',
      rc_side = js_or (js_prop (JObj kvs) ''side'') (JStr ''RIGHT''),
      rc_start_line = js_prop (JObj kvs) ''start_line'',
      rc_start_side = js_prop (JObj kvs) ''start_side''\<rparr>"
  shows "inline_requests (post_segment E pr t s)
           = inline_requests t @ [(r, pulls_createReviewComment E t r)]
         \<and> (map_of kvs ''start_side'' = None \<longrightarrow> rc_start_side r = JUndefined)
         \<and> (map_of kvs ''start_line'' = None \<longrightarrow> rc_start_line r = JUndefined)"
  using draft_object [OF assms(1,2), of pr]
  by (simp add: post_segment_inline r_def)

theorem only_commit_id_and_side_witness:
  "json_parse (sample_env JNull) seg_full = Inr obj_full
   \<and> required_fields obj_full = Inr True
   \<and> inline_requests (post_segment (sample_env JNull) sample_pull sample_log seg_full) =
       [(\<lparr>rc_owner = ''acme'', rc_repo = ''widgets'', rc_pull_number = ''7'',
          rc_body = JStr ''Use env vars'', rc_commit_id = JStr ''c0ffee'',
          rc_path = JStr ''file.py'', rc_line = JNum 11, rc_side = JStr ''LEFT'',
          rc_start_line = JNum 9, rc_start_side = JUndefined\<rparr>, Accepted)]"
proof -
  have p: "json_parse (sample_env JNull) seg_full = Inr (JObj
     [(''body'', JStr ''Use env vars''), (''commit_id'', JStr ''c0ffee''),
           (''path'', JStr ''file.py''), (''start_line'', JNum 9), (''line'', JNum 11),
           (''side'', JStr ''LEFT'')])"
    by (simp add: sample_env_def sample_parse_def seg_full_def seg_min_def obj_full_def)
  have v: "required_fields (JObj
     [(''body'', JStr ''Use env vars''), (''commit_id'', JStr ''c0ffee''),
           (''path'', JStr ''file.py''), (''start_line'', JNum 9), (''line'', JNum 11),
           (''side'', JStr ''LEFT'')]) = Inr True"
    by (simp add: required_fields_def)
  show ?thesis
    using p v only_commit_id_and_side_are_defaulted [OF p v, of sample_pull sample_log]
    by (simp add: obj_full_def js_or_def sample_env_def sample_log_def)
qed

end
